theory Spec2Isabelle
  imports Main "HOL-Library.Word"
begin

section \<open>Gas tracker (package vmcontext)\<close>

text \<open>
  \<^verbatim>\<open>gas.Unit\<close> is an arbitrary-precision integer (\<^verbatim>\<open>big.Int\<close>), so it is
  \<^typ>\<open>int\<close> here and no addition wraps.
\<close>

record GasTracker =
  gasLimit :: int
  gasConsumed :: int

definition NewGasTracker :: "int \<Rightarrow> GasTracker" where
  "NewGasTracker limit = \<lparr>gasLimit = limit, gasConsumed = 0\<rparr>"

text \<open>
  \<^verbatim>\<open>TryCharge\<close> mutates the receiver and returns a bool: the model returns the bool
  together with the tracker after the call.
\<close>

definition TryCharge :: "GasTracker \<Rightarrow> int \<Rightarrow> bool \<times> GasTracker" where
  "TryCharge t amount =
     (let aux = gasConsumed t + amount
      in if aux > gasLimit t then (False, t\<lparr>gasConsumed := gasLimit t\<rparr>)
         else (True, t\<lparr>gasConsumed := aux\<rparr>))"

definition RemainingGas :: "GasTracker \<Rightarrow> int" where
  "RemainingGas t = gasLimit t - gasConsumed t"

section \<open>Chain data read by the sampler (packages block, chain)\<close>

type_synonym bytes = "8 word list"

text \<open>
  \<^verbatim>\<open>abi.ChainEpoch\<close> is \<^verbatim>\<open>int64\<close>: a 64-bit word, ordered by the signed
  comparison \<open><=s\<close> and read as a number by \<^const>\<open>sint\<close>. \<^verbatim>\<open>uint64\<close> is the same
  word type read by \<^const>\<open>unat\<close>.
\<close>

type_synonym ChainEpoch = "64 word"

datatype error = Error string

text \<open>A tipset key is a list of block CIDs (a CID is a number here); the empty key has none.\<close>

type_synonym TipSetKey = "nat list"

definition Empty :: "TipSetKey \<Rightarrow> bool" where
  "Empty k = (k = [])"

record Ticket =
  VRFProof :: bytes

text \<open>
  Modelled from the spec: the type \<^verbatim>\<open>block.TipSet\<close> and its methods are not among the
  source files. The spec (section 3) gives a tipset a key, a height and a minimum
  ticket, and section 4.1 follows its parent key; the source (\<^verbatim>\<open>var ts block.TipSet\<close>,
  \<^verbatim>\<open>base.Defined()\<close>) also has an undefined tipset, the zero value, on which the
  accessors that return an error fail.
\<close>

datatype TipSet =
    UndefTipSet
  | DefinedTipSet TipSetKey TipSetKey ChainEpoch Ticket

definition errUndefTipSet :: error where
  "errUndefTipSet = Error ''undefined tipset''"

fun Defined :: "TipSet \<Rightarrow> bool" where
  "Defined UndefTipSet = False"
| "Defined (DefinedTipSet k ps h t) = True"

fun Key :: "TipSet \<Rightarrow> TipSetKey" where
  "Key UndefTipSet = []"
| "Key (DefinedTipSet k ps h t) = k"

fun Parents :: "TipSet \<Rightarrow> error + TipSetKey" where
  "Parents UndefTipSet = Inl errUndefTipSet"
| "Parents (DefinedTipSet k ps h t) = Inr ps"

fun Height :: "TipSet \<Rightarrow> error + ChainEpoch" where
  "Height UndefTipSet = Inl errUndefTipSet"
| "Height (DefinedTipSet k ps h t) = Inr h"

fun MinTicket :: "TipSet \<Rightarrow> error + Ticket" where
  "MinTicket UndefTipSet = Inl errUndefTipSet"
| "MinTicket (DefinedTipSet k ps h t) = Inr t"

text \<open>
  The interface \<^verbatim>\<open>TipSetProvider\<close>: \<^verbatim>\<open>GetTipSet(key) (TipSet, error)\<close>. A chain-read
  failure is the value \<open>Inl err\<close>.
\<close>

record TipSetProvider =
  GetTipSet :: "TipSetKey \<Rightarrow> error + TipSet"

subsection \<open>The ancestor iterator\<close>

text \<open>
  Modelled from the spec: \<^verbatim>\<open>IterAncestors\<close> and the iterator's \<^verbatim>\<open>Complete\<close>,
  \<^verbatim>\<open>Value\<close> and \<^verbatim>\<open>Next\<close> are not among the source files. Section 4.1: the iterator
  yields the start tipset and then each parent tipset, ends after the genesis tipset
  (the one with no parents), re-reads the store at every step, and a step fails only
  when the store cannot resolve a parent key. After the end, or after a failed step,
  there is no current tipset. The context handed to \<^verbatim>\<open>IterAncestors\<close> has no part in
  the spec's description and none here.
\<close>

record TipsetIterator =
  store :: TipSetProvider
  itValue :: TipSet

definition IterAncestors :: "TipSetProvider \<Rightarrow> TipSet \<Rightarrow> TipsetIterator" where
  "IterAncestors rd start = \<lparr>store = rd, itValue = start\<rparr>"

definition Complete :: "TipsetIterator \<Rightarrow> bool" where
  "Complete it = (\<not> Defined (itValue it))"

definition Value :: "TipsetIterator \<Rightarrow> TipSet" where
  "Value it = itValue it"

definition Next :: "TipsetIterator \<Rightarrow> error option \<times> TipsetIterator" where
  "Next it =
     (case Parents (itValue it) of
        Inl err \<Rightarrow> (Some err, it\<lparr>itValue := UndefTipSet\<rparr>)
      | Inr parentKey \<Rightarrow>
          if Empty parentKey then (None, it\<lparr>itValue := UndefTipSet\<rparr>)
          else (case GetTipSet (store it) parentKey of
                  Inl err \<Rightarrow> (Some err, it\<lparr>itValue := UndefTipSet\<rparr>)
                | Inr ts \<Rightarrow> (None, it\<lparr>itValue := ts\<rparr>)))"

section \<open>The chain sampler (package chain)\<close>

record Sampler =
  reader :: TipSetProvider

definition NewSampler :: "TipSetProvider \<Rightarrow> Sampler" where
  "NewSampler rd = \<lparr>reader = rd\<rparr>"

text \<open>
  The loop of \<^verbatim>\<open>findTipsetAtEpoch\<close>, with the named results \<^verbatim>\<open>ts\<close> and \<^verbatim>\<open>err\<close> as
  arguments. Go tests the loop condition first, then runs the body, then the post
  statement \<^verbatim>\<open>err = iterator.Next()\<close>. The walk follows parent keys through a
  store, so nothing in the code bounds it: not returning is the value \<open>None\<close>.
\<close>

partial_function (option) findTipsetAtEpoch_loop ::
  "ChainEpoch \<Rightarrow> TipsetIterator \<Rightarrow> TipSet \<Rightarrow> error option \<Rightarrow> (TipSet \<times> error option) option"
where
  "findTipsetAtEpoch_loop epoch iterator ts err =
     (if Complete iterator then Some (ts, err)
      else if err \<noteq> None then Some (ts, err)
      else (case Height (Value iterator) of
              Inl e \<Rightarrow> Some (Value iterator, Some e)
            | Inr h \<Rightarrow>
                if h <=s epoch then Some (Value iterator, None)
                else (case Next iterator of
                        (err', iterator') \<Rightarrow>
                          findTipsetAtEpoch_loop epoch iterator' (Value iterator) err')))"

definition findTipsetAtEpoch ::
  "Sampler \<Rightarrow> TipSet \<Rightarrow> ChainEpoch \<Rightarrow> (TipSet \<times> error option) option" where
  "findTipsetAtEpoch s start epoch =
     findTipsetAtEpoch_loop epoch (IterAncestors (reader s) start) UndefTipSet None"

text \<open>
  \<^verbatim>\<open>binary.Write(&buf, binary.BigEndian, epoch)\<close> appends the eight bytes of the
  \<^verbatim>\<open>int64\<close>, most significant first (two's complement). Writing a fixed-size value
  to a \<^verbatim>\<open>bytes.Buffer\<close> cannot fail, so the branch on its error is never taken.
\<close>

definition BigEndian :: "64 word \<Rightarrow> bytes" where
  "BigEndian w = map (\<lambda>i. ucast (drop_bit (8 * i) w)) [7, 6, 5, 4, 3, 2, 1, 0]"

text \<open>
  The contents of \<^verbatim>\<open>buf\<close> before the final hash: the digest of the ticket's VRF proof,
  then the requested epoch. \<^verbatim>\<open>blake2b.Sum256\<close> belongs to a library outside the
  repository and is a parameter, \<open>Sum256\<close>.
\<close>

definition seedBuf :: "(bytes \<Rightarrow> bytes) \<Rightarrow> Ticket \<Rightarrow> ChainEpoch \<Rightarrow> bytes" where
  "seedBuf Sum256 ticket epoch = Sum256 (VRFProof ticket) @ BigEndian epoch"

text \<open>
  \<^verbatim>\<open>Sample\<close> returns \<open>Some (Inr seed)\<close>, \<open>Some (Inl err)\<close>, or \<open>None\<close> when the
  ancestor walk does not return.
\<close>

definition Sample ::
  "(bytes \<Rightarrow> bytes) \<Rightarrow> Sampler \<Rightarrow> TipSetKey \<Rightarrow> ChainEpoch \<Rightarrow> (error + bytes) option" where
  "Sample Sum256 s head epoch =
     (if \<not> Empty head then
        (case GetTipSet (reader s) head of
           Inl err \<Rightarrow> Some (Inl err)
         | Inr start \<Rightarrow>
             (case findTipsetAtEpoch s start epoch of
                None \<Rightarrow> None
              | Some (tip, Some err) \<Rightarrow> Some (Inl err)
              | Some (tip, None) \<Rightarrow>
                  (case MinTicket tip of
                     Inl err \<Rightarrow> Some (Inl err)
                   | Inr ticket \<Rightarrow> Some (Inr (Sum256 (seedBuf Sum256 ticket epoch))))))
      else Some (Inr (Sum256 (seedBuf Sum256 \<lparr>VRFProof = []\<rparr> epoch))))"

text \<open>\<^verbatim>\<open>SamplerAtHead\<close>: a sampler with a fixed head.\<close>

record SamplerAtHead =
  sampler :: Sampler
  head :: TipSetKey

definition NewSamplerAtHead :: "TipSetProvider \<Rightarrow> TipSetKey \<Rightarrow> SamplerAtHead" where
  "NewSamplerAtHead rd h = \<lparr>sampler = NewSampler rd, head = h\<rparr>"

definition SampleAtHead ::
  "(bytes \<Rightarrow> bytes) \<Rightarrow> SamplerAtHead \<Rightarrow> ChainEpoch \<Rightarrow> (error + bytes) option" where
  "SampleAtHead Sum256 s epoch = Sample Sum256 (sampler s) (head s) epoch"

section \<open>Notions used to state the sampler's properties\<close>

text \<open>
  \<open>ancestry rd ts xs\<close>: \<open>xs\<close> lists \<open>ts\<close> and its ancestors in the store \<open>rd\<close>,
  \<open>ts\<close> first and the genesis tipset (the one with no parents) last, every parent key on
  the way resolving.
\<close>

inductive ancestry :: "TipSetProvider \<Rightarrow> TipSet \<Rightarrow> TipSet list \<Rightarrow> bool" for rd where
  genesis: "Parents ts = Inr [] \<Longrightarrow> ancestry rd ts [ts]"
| parent: "Parents ts = Inr pk \<Longrightarrow> pk \<noteq> [] \<Longrightarrow> GetTipSet rd pk = Inr p \<Longrightarrow> ancestry rd p ps
           \<Longrightarrow> ancestry rd ts (ts # ps)"

code_pred ancestry .

text \<open>A tipset whose height is at most the epoch; a tipset strictly higher than another.\<close>

definition atOrBelow :: "ChainEpoch \<Rightarrow> TipSet \<Rightarrow> bool" where
  "atOrBelow epoch ts = (case Height ts of Inl e \<Rightarrow> False | Inr h \<Rightarrow> h <=s epoch)"

definition above :: "TipSet \<Rightarrow> TipSet \<Rightarrow> bool" where
  "above a b = (case Height a of Inl e \<Rightarrow> False
                | Inr ha \<Rightarrow> (case Height b of Inl e \<Rightarrow> False | Inr hb \<Rightarrow> hb <s ha))"

text \<open>
  The first tipset of a list that is at or below the epoch, or the last tipset of the list
  when there is none.
\<close>

definition pick :: "ChainEpoch \<Rightarrow> TipSet list \<Rightarrow> TipSet" where
  "pick epoch xs = (case find (atOrBelow epoch) xs of Some T \<Rightarrow> T | None \<Rightarrow> last xs)"

text \<open>
  A chain-read failure on the ancestor walk for an epoch, started at a tipset: the walk
  moves on from a tipset only while its height is above the epoch, and fails with the
  error \<open>e\<close> when the store answers a non-empty parent key with \<open>e\<close>.
\<close>

inductive traversalFails :: "TipSetProvider \<Rightarrow> ChainEpoch \<Rightarrow> TipSet \<Rightarrow> error \<Rightarrow> bool"
  for rd epoch where
  here: "Height t = Inr h \<Longrightarrow> \<not> h <=s epoch \<Longrightarrow> Parents t = Inr pk \<Longrightarrow> pk \<noteq> []
         \<Longrightarrow> GetTipSet rd pk = Inl e \<Longrightarrow> traversalFails rd epoch t e"
| later: "Height t = Inr h \<Longrightarrow> \<not> h <=s epoch \<Longrightarrow> Parents t = Inr pk \<Longrightarrow> pk \<noteq> []
         \<Longrightarrow> GetTipSet rd pk = Inr p \<Longrightarrow> traversalFails rd epoch p e
         \<Longrightarrow> traversalFails rd epoch t e"

code_pred traversalFails .

text \<open>
  A chain-read failure of \<^verbatim>\<open>Sample\<close>: the head key is not empty, and either the store
  fails to resolve it or the ancestor walk from its tipset fails.
\<close>

definition readFailure :: "TipSetProvider \<Rightarrow> TipSetKey \<Rightarrow> ChainEpoch \<Rightarrow> error \<Rightarrow> bool" where
  "readFailure rd hk epoch e =
     (\<not> Empty hk \<and> (case GetTipSet rd hk of Inl e' \<Rightarrow> e' = e
                      | Inr start \<Rightarrow> traversalFails rd epoch start e))"

text \<open>
  The chain invariant of the spec (section 3), as a property of the store: a stored
  tipset is strictly higher than the stored parent its parent key resolves to.
\<close>

definition descending :: "TipSetProvider \<Rightarrow> bool" where
  "descending rd = (\<forall>k t pk p. GetTipSet rd k = Inr t \<and> Parents t = Inr pk \<and> pk \<noteq> []
                      \<and> GetTipSet rd pk = Inr p \<longrightarrow> above t p)"

text \<open>
  What a returned walk satisfies, by the error it was entered with; and the rank of a
  tipset's height, which falls along a descending store.
\<close>

definition loopPost :: "ChainEpoch \<Rightarrow> TipsetIterator \<Rightarrow> TipSet \<Rightarrow> error option \<Rightarrow> TipSet \<times> error option \<Rightarrow> bool" where
  "loopPost epoch it ts err r =
     (case err of
           Some e0 \<Rightarrow> r = (ts, Some e0)
         | None \<Rightarrow> Defined (itValue it) \<or> Defined ts \<longrightarrow>
             (case snd r of None \<Rightarrow> Defined (fst r)
              | Some e \<Rightarrow> traversalFails (store it) epoch (itValue it) e))"

definition heightRank :: "TipSet \<Rightarrow> nat" where
  "heightRank t = (case Height t of Inl e \<Rightarrow> 0 | Inr h \<Rightarrow> nat (sint h + 2 ^ 63))"

subsection \<open>An example chain\<close>

text \<open>
  Tipsets at heights 0, 1, 2 and 5 (heights 3 and 4 are null), each holding its height
  in decimal as its ticket, as the chains of the sampler's tests do; and a tipset at
  height 9 whose parent is not in the store.
\<close>

definition ts0 :: TipSet where "ts0 = DefinedTipSet [100] [] 0 \<lparr>VRFProof = [48]\<rparr>"
definition ts1 :: TipSet where "ts1 = DefinedTipSet [101] [100] 1 \<lparr>VRFProof = [49]\<rparr>"
definition ts2 :: TipSet where "ts2 = DefinedTipSet [102] [101] 2 \<lparr>VRFProof = [50]\<rparr>"
definition ts5 :: TipSet where "ts5 = DefinedTipSet [105] [102] 5 \<lparr>VRFProof = [53]\<rparr>"
definition ts9 :: TipSet where "ts9 = DefinedTipSet [109] [108] 9 \<lparr>VRFProof = [57]\<rparr>"

definition exStore :: TipSetProvider where
  "exStore = \<lparr>GetTipSet = (\<lambda>k.
     if k = [100] then Inr ts0 else if k = [101] then Inr ts1 else if k = [102] then Inr ts2
     else if k = [105] then Inr ts5 else if k = [109] then Inr ts9
     else Inl (Error ''tipset not found''))\<rparr>"

lemmas ex_defs = ts0_def ts1_def ts2_def ts5_def ts9_def exStore_def

section \<open>The mining worker (package mining)\<close>

text \<open>
  Addresses, the signer, the sorted sector infos and the proof generator are data that
  \<^verbatim>\<open>Mine\<close> only hands from one collaborator to another.
\<close>

type_synonym Address = nat

type_synonym Signer = nat

type_synonym SortedPublicSectorInfo = "nat list"

type_synonym PoStGenerator = nat

text \<open>
  \<^verbatim>\<open>ffi.Candidate\<close> belongs to a library outside the repository; \<^verbatim>\<open>Mine\<close> reads its
  \<^verbatim>\<open>PartialTicket\<close> and hands the candidates on whole.
\<close>

record Candidate =
  SectorID :: "64 word"
  PartialTicket :: bytes
  SectorChallengeIndex :: "64 word"

text \<open>
  Modelled from the spec: \<^verbatim>\<open>block.EPoStInfo\<close>, \<^verbatim>\<open>block.NewEPoStInfo\<close>,
  \<^verbatim>\<open>block.FromFFICandidates\<close> and \<^verbatim>\<open>block.Block\<close> are not among the source files.
  Section 4.4, step 10: the proof information combines the aggregate proof, the
  post-randomness and the winning candidates (the fields \<^verbatim>\<open>PoStProof\<close>,
  \<^verbatim>\<open>PoStRandomness\<close> and \<^verbatim>\<open>Winners\<close> of the block tests), the conversion of the
  candidates keeping them as they are. Of a block, the miner, ticket, height, parents and
  proof information are kept.
\<close>

record EPoStInfo =
  PoStProof :: bytes
  PoStRandomness :: bytes
  Winners :: "Candidate list"

definition NewEPoStInfo :: "bytes \<Rightarrow> bytes \<Rightarrow> Candidate list \<Rightarrow> EPoStInfo" where
  "NewEPoStInfo proof rand winners =
     \<lparr>PoStProof = proof, PoStRandomness = rand, Winners = winners\<rparr>"

datatype Block = Block Address Ticket ChainEpoch TipSetKey EPoStInfo

text \<open>
  \<^verbatim>\<open>Output\<close>: the result of a mining run, a block or an error; a nil pointer and a nil
  error are \<open>None\<close>.
\<close>

record Output =
  NewBlock :: "Block option"
  Err :: "error option"

definition NewOutput :: "Block option \<Rightarrow> error option \<Rightarrow> Output" where
  "NewOutput b e = \<lparr>NewBlock = b, Err = e\<rparr>"

text \<open>
  The collaborators of the worker, as the interfaces of the source declare them. The
  context argument of a collaborator is left out: a collaborator is a function of its
  other arguments, whose result is the answer it gives in the run at hand.
  \<^verbatim>\<open>consensus.PowerStateView\<close> and \<^verbatim>\<open>consensus.PowerTableView\<close> are declared outside
  the source files; they have the methods that \<^verbatim>\<open>Mine\<close> calls. \<^verbatim>\<open>abi.StoragePower\<close>
  is a big integer, \<^verbatim>\<open>abi.SectorSize\<close> a \<^verbatim>\<open>uint64\<close>.
\<close>

record PowerStateView =
  MinerControlAddresses :: "Address \<Rightarrow> error + Address \<times> Address"

record PowerTableView =
  SortedSectorInfos :: "Address \<Rightarrow> error + SortedPublicSectorInfo"
  NumSectors :: "Address \<Rightarrow> error + 64 word"
  Total :: "error + int"
  SectorSize :: "Address \<Rightarrow> error + 64 word"

record workerPorcelainAPI =
  PowerStateView :: "TipSetKey \<Rightarrow> error + PowerStateView"

record electionUtil =
  GeneratePoStRandomness :: "Ticket \<Rightarrow> Address \<Rightarrow> Signer \<Rightarrow> 64 word \<Rightarrow> error + bytes"
  GenerateCandidates ::
    "bytes \<Rightarrow> SortedPublicSectorInfo \<Rightarrow> PoStGenerator \<Rightarrow> error + Candidate list"
  GeneratePoSt ::
    "SortedPublicSectorInfo \<Rightarrow> bytes \<Rightarrow> Candidate list \<Rightarrow> PoStGenerator \<Rightarrow> error + bytes"
  CandidateWins :: "bytes \<Rightarrow> 64 word \<Rightarrow> 64 word \<Rightarrow> 64 word \<Rightarrow> 64 word \<Rightarrow> bool"

record ticketGenerator =
  NextTicket :: "Ticket \<Rightarrow> Address \<Rightarrow> Signer \<Rightarrow> error + Ticket"

text \<open>
  The package \<^verbatim>\<open>hasher\<close> is not among the source files. A hasher is an object with
  state \<open>'h\<close>: \<^verbatim>\<open>NewHasher\<close> makes one, \<^verbatim>\<open>Bytes\<close> feeds it, \<^verbatim>\<open>Hash\<close> returns a digest
  and leaves the hasher in some state.
\<close>

record 'h Hasher =
  NewHasher :: 'h
  Bytes :: "'h \<Rightarrow> bytes \<Rightarrow> 'h"
  Hash :: "'h \<Rightarrow> bytes \<times> 'h"

text \<open>
  \<^verbatim>\<open>DefaultWorker\<close>: the fields that \<^verbatim>\<open>Mine\<close> reads, and with them the code that
  \<^verbatim>\<open>Mine\<close> calls from outside the source files: the worker's method \<^verbatim>\<open>Generate\<close>,
  which returns a block pointer and an error, \<^verbatim>\<open>sampling.SampleNthTicket\<close>, the constant
  \<^verbatim>\<open>miner.ElectionLookback\<close>, \<^verbatim>\<open>consensus.NewPowerTableView\<close> and the hasher.
\<close>

record 'h DefaultWorker =
  api :: workerPorcelainAPI
  minerAddr :: Address
  workerSigner :: Signer
  getAncestors :: "TipSet \<Rightarrow> ChainEpoch \<Rightarrow> error + TipSet list"
  election :: electionUtil
  ticketGen :: ticketGenerator
  poster :: PoStGenerator
  Generate :: "TipSet \<Rightarrow> Ticket \<Rightarrow> ChainEpoch \<Rightarrow> EPoStInfo \<Rightarrow> Block option \<times> error option"
  SampleNthTicket :: "64 word \<Rightarrow> TipSet list \<Rightarrow> error + Ticket"
  ElectionLookback :: "64 word"
  NewPowerTableView :: "PowerStateView \<Rightarrow> PowerTableView"
  hasher :: "'h Hasher"

text \<open>
  What one invocation observes of its context: whether \<^verbatim>\<open>ctx.Err()\<close> is set at entry
  (line 236), and whether the \<^verbatim>\<open>select\<close> of the candidate race (line 318) and of the
  final-proof race (line 380) takes the case \<^verbatim>\<open><-ctx.Done()\<close>.
\<close>

record Context =
  errAtEntry :: bool
  doneAtCandidates :: bool
  doneAtPoSt :: bool

text \<open>
  A \<^verbatim>\<open>select\<close> over \<^verbatim>\<open>ctx.Done()\<close>, the error channel and the result channel of a
  goroutine that sends its error on the one or its result on the other.
\<close>

datatype 'a selected = fromCtxDone | fromErrCh error | fromDone 'a

definition raceSelect :: "bool \<Rightarrow> error + 'a \<Rightarrow> 'a selected" where
  "raceSelect ctxDone r =
     (if ctxDone then fromCtxDone
      else case r of Inl err \<Rightarrow> fromErrCh err | Inr v \<Rightarrow> fromDone v)"

text \<open>
  The output channel is the list of the outputs sent on it, oldest first; \<^verbatim>\<open>Mine\<close>
  returns \<^verbatim>\<open>won\<close> and the channel. An early \<^verbatim>\<open>return\<close> is \<open>Inl\<close> of that pair.
  \<open>orSend\<close> is the statement \<^verbatim>\<open>if err != nil { outCh <- Output{Err: err}; return }\<close>
  that follows each call.
\<close>

type_synonym returned = "bool \<times> Output list"

definition orSend ::
  "error + 'a \<Rightarrow> Output list \<Rightarrow> ('a \<Rightarrow> returned + 'b) \<Rightarrow> returned + 'b" where
  "orSend r outCh k =
     (case r of
        Inl err \<Rightarrow> Inl (False, outCh @ [\<lparr>NewBlock = None, Err = Some err\<rparr>])
      | Inr v \<Rightarrow> k v)"

definition getPowerTable :: "'h DefaultWorker \<Rightarrow> TipSetKey \<Rightarrow> error + PowerTableView" where
  "getPowerTable w baseKey =
     (case PowerStateView (api w) baseKey of
        Inl err \<Rightarrow> Inl err
      | Inr view \<Rightarrow> Inr (NewPowerTableView w view))"

text \<open>The variables of \<^verbatim>\<open>Mine\<close> that are read from line 348 on.\<close>

record Evaluation =
  nextTicket :: Ticket
  postRandomness :: bytes
  sortedSectorInfos :: SortedPublicSectorInfo
  candidates :: "Candidate list"
  sectorNum :: "64 word"
  networkPower :: int
  sectorSize :: "64 word"

text \<open>
  Lines 229 to 347 of \<^verbatim>\<open>Mine\<close>: the checks of the base and of the context, the reads,
  the candidate race and the reads of the power table. \<^verbatim>\<open>nullBlkCount + 1\<close> is computed
  in \<^verbatim>\<open>uint64\<close> and converted to \<^verbatim>\<open>int64\<close>, which keeps the bits. When the candidate
  race takes \<^verbatim>\<open><-ctx.Done()\<close> the source logs and goes on with \<^verbatim>\<open>candidates\<close> still nil.
\<close>

definition Mine_reads ::
  "'h DefaultWorker \<Rightarrow> Context \<Rightarrow> TipSet \<Rightarrow> 64 word \<Rightarrow> Output list \<Rightarrow> returned + Evaluation"
where
  "Mine_reads w ctx base nullBlkCount outCh =
     (if \<not> Defined base then
        Inl (False, outCh @ [\<lparr>NewBlock = None,
               Err = Some (Error ''bad input tipset with no blocks sent to Mine()'')\<rparr>])
      else if errAtEntry ctx then Inl (False, outCh)
      else
        orSend (PowerStateView (api w) (Key base)) outCh (\<lambda>view.
        orSend (MinerControlAddresses view (minerAddr w)) outCh (\<lambda>(ownerAddr, workerAddr).
        orSend (MinTicket base) outCh (\<lambda>prevTicket.
        orSend (NextTicket (ticketGen w) prevTicket workerAddr (workerSigner w)) outCh
          (\<lambda>nextTicket'.
        orSend (Height base) outCh (\<lambda>baseHeight.
        orSend (getAncestors w base (baseHeight + (nullBlkCount + 1))) outCh (\<lambda>ancestors.
        orSend (SampleNthTicket w (ElectionLookback w - 1) ancestors) outCh (\<lambda>electionTicket.
        orSend (GeneratePoStRandomness (election w) electionTicket workerAddr (workerSigner w)
                  nullBlkCount) outCh (\<lambda>postRandomness'.
        orSend (getPowerTable w (Key base)) outCh (\<lambda>powerTable.
        orSend (SortedSectorInfos powerTable (minerAddr w)) outCh (\<lambda>sortedSectorInfos'.
        (case raceSelect (doneAtCandidates ctx)
                (GenerateCandidates (election w) postRandomness' sortedSectorInfos' (poster w)) of
           fromErrCh err \<Rightarrow> Inl (False, outCh @ [\<lparr>NewBlock = None, Err = Some err\<rparr>])
         | sel \<Rightarrow>
             (let candidates' = (case sel of fromDone genResult \<Rightarrow> genResult | _ \<Rightarrow> [])
              in
                orSend (NumSectors powerTable (minerAddr w)) outCh (\<lambda>sectorNum'.
                orSend (Total powerTable) outCh (\<lambda>networkPower'.
                orSend (SectorSize powerTable (minerAddr w)) outCh (\<lambda>sectorSize'.
                Inr \<lparr>nextTicket = nextTicket', postRandomness = postRandomness',
                     sortedSectorInfos = sortedSectorInfos', candidates = candidates',
                     sectorNum = sectorNum', networkPower = networkPower',
                     sectorSize = sectorSize'\<rparr>))))))))))))))))"

text \<open>
  \<^verbatim>\<open>big.Int.Uint64\<close>, of the standard library: the low 64 bits of the magnitude (the
  library leaves the result undefined when the number does not fit).
\<close>

definition Uint64 :: "int \<Rightarrow> 64 word" where
  "Uint64 x = word_of_int \<bar>x\<bar>"

text \<open>
  Lines 348 to 358: the loop over the candidates, with the one hasher made before the
  loop and the winners so far as arguments. The fault count handed to
  \<^verbatim>\<open>CandidateWins\<close> is the literal 0; \<^verbatim>\<open>uint64(sectorSize)\<close> keeps the value.
\<close>

fun winLoop ::
  "'h DefaultWorker \<Rightarrow> 64 word \<Rightarrow> int \<Rightarrow> 64 word \<Rightarrow> 'h \<Rightarrow> Candidate list \<Rightarrow> Candidate list
   \<Rightarrow> Candidate list"
where
  "winLoop w sn np ss h winners [] = winners"
| "winLoop w sn np ss h winners (candidate # rest) =
     (let h1 = Bytes (hasher w) h (PartialTicket candidate);
          (challengeTicket, h2) = Hash (hasher w) h1
      in winLoop w sn np ss h2
           (if CandidateWins (election w) challengeTicket sn 0 (Uint64 np) ss
            then winners @ [candidate] else winners)
           rest)"

definition Mine_winners :: "'h DefaultWorker \<Rightarrow> Evaluation \<Rightarrow> Candidate list" where
  "Mine_winners w ev =
     winLoop w (sectorNum ev) (networkPower ev) (sectorSize ev) (NewHasher (hasher w)) []
       (candidates ev)"

text \<open>
  Lines 360 to 399: the return without output when there is no winner, the final-proof
  race, and the block. When the race takes \<^verbatim>\<open><-ctx.Done()\<close> the source logs and goes on
  with \<^verbatim>\<open>post\<close> still nil. \<^verbatim>\<open>abi.ChainEpoch(nullBlkCount)\<close> keeps the bits.
\<close>

definition Mine_finish ::
  "'h DefaultWorker \<Rightarrow> Context \<Rightarrow> TipSet \<Rightarrow> 64 word \<Rightarrow> Output list \<Rightarrow> Evaluation
   \<Rightarrow> Candidate list \<Rightarrow> returned"
where
  "Mine_finish w ctx base nullBlkCount outCh ev winners =
     (if length winners = 0 then (False, outCh)
      else
        (case raceSelect (doneAtPoSt ctx)
                (GeneratePoSt (election w) (sortedSectorInfos ev) (postRandomness ev) winners
                   (poster w)) of
           fromErrCh err \<Rightarrow> (False, outCh @ [\<lparr>NewBlock = None, Err = Some err\<rparr>])
         | sel \<Rightarrow>
             (let post = (case sel of fromDone postOut \<Rightarrow> postOut | _ \<Rightarrow> []);
                  postInfo = NewEPoStInfo post (postRandomness ev) winners;
                  (next, err) = Generate w base (nextTicket ev) nullBlkCount postInfo
              in (True, outCh @ [NewOutput next err]))))"

definition Mine ::
  "'h DefaultWorker \<Rightarrow> Context \<Rightarrow> TipSet \<Rightarrow> 64 word \<Rightarrow> Output list \<Rightarrow> returned" where
  "Mine w ctx base nullBlkCount outCh =
     (case Mine_reads w ctx base nullBlkCount outCh of
        Inl r \<Rightarrow> r
      | Inr ev \<Rightarrow> Mine_finish w ctx base nullBlkCount outCh ev (Mine_winners w ev))"

subsection \<open>Notions used to state the worker's properties\<close>

text \<open>
  The challenge tickets that the loop of lines 348 to 358 hands to \<^verbatim>\<open>CandidateWins\<close>,
  one for each candidate in turn, from the hasher's state before the loop.
\<close>

fun challengeTickets :: "'h DefaultWorker \<Rightarrow> 'h \<Rightarrow> Candidate list \<Rightarrow> bytes list" where
  "challengeTickets w h [] = []"
| "challengeTickets w h (candidate # rest) =
     (let h1 = Bytes (hasher w) h (PartialTicket candidate);
          (challengeTicket, h2) = Hash (hasher w) h1
      in challengeTicket # challengeTickets w h2 rest)"



subsection \<open>An example worker\<close>

text \<open>
  A miner on the example chain. Its hasher returns the bytes fed since the last digest;
  a candidate wins when its challenge ticket is the byte 4 and the fault count is 0. The
  proof engine offers the candidates 3 and 4 when no null block is mined and the
  candidate 3 alone otherwise.
\<close>

definition exView :: PowerStateView where
  "exView = \<lparr>MinerControlAddresses = (\<lambda>a. Inr (7, 8))\<rparr>"

definition exTable :: PowerTableView where
  "exTable = \<lparr>SortedSectorInfos = (\<lambda>a. Inr [1, 2]), NumSectors = (\<lambda>a. Inr 2),
     Total = Inr 1000, SectorSize = (\<lambda>a. Inr 2048)\<rparr>"

definition exCandidate :: "8 word \<Rightarrow> Candidate" where
  "exCandidate b = \<lparr>SectorID = ucast b, PartialTicket = [b], SectorChallengeIndex = 0\<rparr>"

definition exWorker :: "bytes DefaultWorker" where
  "exWorker = \<lparr>
     api = \<lparr>PowerStateView = (\<lambda>k. Inr exView)\<rparr>,
     minerAddr = 7,
     workerSigner = 9,
     getAncestors = (\<lambda>base h. Inr [base]),
     election = \<lparr>
       GeneratePoStRandomness = (\<lambda>t a s n. Inr (VRFProof t @ [ucast n])),
       GenerateCandidates = (\<lambda>r ssi p.
         Inr (if last r = 0 then [exCandidate 3, exCandidate 4] else [exCandidate 3])),
       GeneratePoSt = (\<lambda>ssi r ws p. Inr [42]),
       CandidateWins = (\<lambda>ch sn f np ss. ch = [4] \<and> f = 0)\<rparr>,
     ticketGen = \<lparr>NextTicket = (\<lambda>t a s. Inr \<lparr>VRFProof = VRFProof t @ [1]\<rparr>)\<rparr>,
     poster = 1,
     Generate = (\<lambda>base t n info. (Some (Block 7 t n (Key base) info), None)),
     SampleNthTicket = (\<lambda>n ts. case ts of [] \<Rightarrow> Inl (Error ''no ancestors'')
                                | t # rest \<Rightarrow> MinTicket t),
     ElectionLookback = 1,
     NewPowerTableView = (\<lambda>v. exTable),
     hasher = \<lparr>NewHasher = [], Bytes = (\<lambda>h b. h @ b), Hash = (\<lambda>h. (h, []))\<rparr>\<rparr>"

text \<open>The same worker with a block generation that fails.\<close>

definition exWorkerNoBlock :: "bytes DefaultWorker" where
  "exWorkerNoBlock =
     exWorker\<lparr>Generate := (\<lambda>base t n info. (None, Some (Error ''generate failed'')))\<rparr>"

text \<open>The same worker with a power table that cannot tell the number of sectors.\<close>

definition exWorkerNoSectors :: "bytes DefaultWorker" where
  "exWorkerNoSectors =
     exWorker\<lparr>NewPowerTableView :=
       (\<lambda>v. exTable\<lparr>NumSectors := (\<lambda>a. Inl (Error ''context canceled''))\<rparr>)\<rparr>"

text \<open>
  A context that is never seen cancelled, one seen cancelled in the candidate race and
  one seen cancelled in the final-proof race.
\<close>

definition ctxCancelledAtCandidates :: Context where
  "ctxCancelledAtCandidates =
     \<lparr>errAtEntry = False, doneAtCandidates = True, doneAtPoSt = False\<rparr>"

definition ctxLive :: Context where
  "ctxLive = \<lparr>errAtEntry = False, doneAtCandidates = False, doneAtPoSt = False\<rparr>"

definition ctxCancelledAtPoSt :: Context where
  "ctxCancelledAtPoSt = \<lparr>errAtEntry = False, doneAtCandidates = False, doneAtPoSt = True\<rparr>"

definition exEvaluation :: "64 word \<Rightarrow> Evaluation" where
  "exEvaluation n = \<lparr>nextTicket = \<lparr>VRFProof = [53, 1]\<rparr>, postRandomness = [53, ucast n],
     sortedSectorInfos = [1, 2],
     candidates = (if n = 0 then [exCandidate 3, exCandidate 4] else [exCandidate 3]),
     sectorNum = 2, networkPower = 1000, sectorSize = 2048\<rparr>"

lemmas exWorker_defs = exWorker_def exWorkerNoBlock_def exWorkerNoSectors_def exView_def
  exTable_def exCandidate_def ctxLive_def ctxCancelledAtCandidates_def ctxCancelledAtPoSt_def
  exEvaluation_def

section \<open>Lemmas: the big-endian encoding\<close>



lemma length_BigEndian: "length (BigEndian w) = 8"
  by (simp add: BigEndian_def)

lemma BigEndian_examples:
  "BigEndian 258 = [0, 0, 0, 0, 0, 0, 1, 2]"
  "BigEndian (- 2) = [255, 255, 255, 255, 255, 255, 255, 254]"
  by code_simp+

section \<open>Lemmas: the ancestor walk\<close>

lemma Parents_Inr_Defined: "Parents ts = Inr pk \<Longrightarrow> Defined ts"
  by (cases ts) simp_all

lemma Defined_Height: "Defined ts \<Longrightarrow> \<exists>h. Height ts = Inr h"
  by (cases ts) simp_all

lemma Defined_MinTicket: "Defined ts \<Longrightarrow> \<exists>tk. MinTicket ts = Inr tk"
  by (cases ts) simp_all

lemma ancestry_Defined: "ancestry rd t xs \<Longrightarrow> x \<in> set xs \<Longrightarrow> Defined x"
  by (induction rule: ancestry.induct) (auto dest: Parents_Inr_Defined)

lemma ancestry_nonempty: "ancestry rd t xs \<Longrightarrow> xs \<noteq> []"
  by (induction rule: ancestry.induct) auto

text \<open>One turn of the loop, in each of the three ways it can go.\<close>

lemma loop_Complete:
  "\<not> Defined (itValue it) \<Longrightarrow> findTipsetAtEpoch_loop epoch it ts err = Some (ts, err)"
  by (subst findTipsetAtEpoch_loop.simps) (simp add: Complete_def)

lemma loop_found:
  "Height (itValue it) = Inr h \<Longrightarrow> h <=s epoch
   \<Longrightarrow> findTipsetAtEpoch_loop epoch it ts None = Some (itValue it, None)"
  by (subst findTipsetAtEpoch_loop.simps) (cases "itValue it"; simp add: Complete_def Value_def)

lemma loop_step:
  "Height (itValue it) = Inr h \<Longrightarrow> \<not> h <=s epoch
   \<Longrightarrow> findTipsetAtEpoch_loop epoch it ts None =
       findTipsetAtEpoch_loop epoch (snd (Next it)) (itValue it) (fst (Next it))"
  by (subst findTipsetAtEpoch_loop.simps)
     (cases "itValue it"; simp add: Complete_def Value_def split: prod.splits)

text \<open>On a chain that resolves down to genesis the loop returns the picked tipset.\<close>

lemma loop_ancestry:
  "ancestry rd t xs \<Longrightarrow>
   findTipsetAtEpoch_loop epoch \<lparr>store = rd, itValue = t\<rparr> ts None = Some (pick epoch xs, None)"
proof (induction arbitrary: ts rule: ancestry.induct)
  case (genesis t)
  then obtain h where h: "Height t = Inr h"
    using Parents_Inr_Defined Defined_Height by blast
  show ?case
  proof (cases "h <=s epoch")
    case True
    with h show ?thesis by (simp add: loop_found pick_def atOrBelow_def)
  next
    case False
    with h genesis show ?thesis
      by (simp add: loop_step Next_def Empty_def loop_Complete pick_def atOrBelow_def)
  qed
next
  case (parent t pk p ps)
  then obtain h where h: "Height t = Inr h"
    using Parents_Inr_Defined Defined_Height by blast
  have ne: "ps \<noteq> []" using parent.hyps(4) by (rule ancestry_nonempty)
  show ?case
  proof (cases "h <=s epoch")
    case True
    with h show ?thesis by (simp add: loop_found pick_def atOrBelow_def)
  next
    case False
    with h parent.hyps(1-3) ne show ?thesis
      by (simp add: loop_step Next_def Empty_def parent.IH pick_def atOrBelow_def
            split: option.splits)
  qed
qed

text \<open>Where heights fall strictly along the list, the picked tipset is the highest one
  at or below the epoch.\<close>

lemma pick_highest:
  assumes "sorted_wrt above xs" "xs \<noteq> []"
  shows "pick epoch xs \<in> set xs \<and>
    (if \<exists>t\<in>set xs. atOrBelow epoch t
     then atOrBelow epoch (pick epoch xs)
          \<and> (\<forall>t\<in>set xs. atOrBelow epoch t \<longrightarrow> t = pick epoch xs \<or> above (pick epoch xs) t)
     else pick epoch xs = last xs)"
proof (cases "find (atOrBelow epoch) xs")
  case None
  then have "\<forall>x\<in>set xs. \<not> atOrBelow epoch x" by (simp add: find_None_iff)
  with None assms(2) show ?thesis by (simp add: pick_def)
next
  case (Some T)
  then obtain i where i: "i < length xs" "atOrBelow epoch (xs ! i)" "T = xs ! i"
    "\<forall>j<i. \<not> atOrBelow epoch (xs ! j)"
    by (auto simp: find_Some_iff)
  have "t = T \<or> above T t" if "t \<in> set xs" "atOrBelow epoch t" for t
  proof -
    from that(1) obtain k where k: "k < length xs" "t = xs ! k" by (auto simp: in_set_conv_nth)
    with that(2) i(4) have "\<not> k < i" by auto
    then consider "k = i" | "i < k" by linarith
    then show ?thesis
    proof cases
      case 1 with k i show ?thesis by simp
    next
      case 2 with assms(1) k i show ?thesis by (auto simp: sorted_wrt_iff_nth_less)
    qed
  qed
  with Some i show ?thesis by (auto simp: pick_def)
qed

lemma ex_ancestry: "ancestry exStore ts5 [ts5, ts2, ts1, ts0]"
proof -
  have "ancestry exStore ts0 [ts0]"
    by (rule ancestry.genesis) (simp add: ts0_def)
  then have "ancestry exStore ts1 [ts1, ts0]"
    by (rule ancestry.parent [where pk = "[100]", rotated 3]) (simp_all add: ex_defs)
  then have "ancestry exStore ts2 [ts2, ts1, ts0]"
    by (rule ancestry.parent [where pk = "[101]", rotated 3]) (simp_all add: ex_defs)
  then show ?thesis
    by (rule ancestry.parent [where pk = "[102]", rotated 3]) (simp_all add: ex_defs)
qed

lemma ex_sorted: "sorted_wrt above [ts5, ts2, ts1, ts0]"
  by (simp add: above_def ex_defs word_sless_alt)

text \<open>
  The sampler's test "skips missing tipsets": sampling epoch 4, inside the null gap
  below the head at height 5, hashes the ticket of the tipset at height 2.
\<close>

lemma ex_Sample_gap:
  "Sample Sum256 (NewSampler exStore) [105] 4 = Some (Inr (Sum256 (Sum256 [50] @ BigEndian 4)))"
  by (simp add: Sample_def Empty_def NewSampler_def findTipsetAtEpoch_def IterAncestors_def
      exStore_def ts5_def ts2_def loop_step loop_found Next_def seedBuf_def word_sle_eq)

lemma pick_genesis:
  assumes "sorted_wrt above xs" "xs \<noteq> []" "Height (last xs) = Inr g" "0 <=s g" "epoch <=s 0"
  shows "pick epoch xs = last xs"
proof (cases "find (atOrBelow epoch) xs")
  case None
  then show ?thesis by (simp add: pick_def)
next
  case (Some T)
  then obtain i where i: "i < length xs" "atOrBelow epoch (xs ! i)" "T = xs ! i"
    by (auto simp: find_Some_iff)
  have "i = length xs - 1"
  proof (rule ccontr)
    assume "i \<noteq> length xs - 1"
    with i(1) have lt: "i < length xs - 1" by simp
    with assms(1) have "above (xs ! i) (xs ! (length xs - 1))"
      by (simp add: sorted_wrt_iff_nth_less)
    with assms(2) have "above (xs ! i) (last xs)" by (simp add: last_conv_nth)
    with assms(3) obtain h where h: "Height (xs ! i) = Inr h" "g <s h"
      by (auto simp: above_def split: sum.splits)
    with i(2) have "h <=s epoch" by (simp add: atOrBelow_def)
    with h(2) assms(4,5) show False by (simp add: word_sle_eq word_sless_alt)
  qed
  with i(3) assms(2) have "T = last xs" by (simp add: last_conv_nth)
  with Some show ?thesis by (simp add: pick_def)
qed

lemma Sample_resolved:
  assumes "\<not> Empty hk" and "GetTipSet (reader s) hk = Inr start"
    and "findTipsetAtEpoch s start epoch = Some (T, None)" and "MinTicket T = Inr tk"
  shows "Sample Sum256 s hk epoch = Some (Inr (Sum256 (seedBuf Sum256 tk epoch)))"
  using assms by (simp add: Sample_def)


section \<open>Lemmas: chain-read failures and totality\<close>

lemma traversalFails_Defined: "traversalFails rd epoch t e \<Longrightarrow> Defined t"
  by (induction rule: traversalFails.induct) (auto dest: Parents_Inr_Defined)

lemma loop_fails:
  "traversalFails rd epoch t e \<Longrightarrow>
   \<exists>T. findTipsetAtEpoch_loop epoch \<lparr>store = rd, itValue = t\<rparr> ts None = Some (T, Some e)"
proof (induction arbitrary: ts rule: traversalFails.induct)
  case (here t h pk e)
  then show ?case by (simp add: loop_step Next_def Empty_def loop_Complete)
next
  case (later t h pk p e)
  then show ?case by (simp add: loop_step Next_def Empty_def)
qed

lemma loop_returns:
  assumes "findTipsetAtEpoch_loop ep itr prev er = Some out"
  shows "loopPost ep itr prev er out"
  using assms
proof (rule findTipsetAtEpoch_loop.raw_induct [where P = loopPost, rotated 1], unfold loopPost_def, goal_cases)
  case (1 f epoch it ts err r)
  show ?case
  proof (cases err)
    case (Some e0)
    with 1(2) show ?thesis by (simp split: if_splits)
  next
    case None
    show ?thesis
    proof (cases "Defined (itValue it)")
      case False
      with 1(2) None show ?thesis by (auto simp: Complete_def)
    next
      case True
      then obtain h where h: "Height (itValue it) = Inr h" using Defined_Height by blast
      from True obtain pk where pk: "Parents (itValue it) = Inr pk" by (cases "itValue it") simp_all
      show ?thesis
      proof (cases "h <=s epoch")
        case le: True
        with 1(2) None True h show ?thesis by (auto simp: Complete_def Value_def)
      next
        case gt: False
        obtain err' it' where n: "Next it = (err', it')" by (cases "Next it")
        with 1(2) None True h gt have rec: "f epoch it' (itValue it) err' = Some r"
          by (simp add: Complete_def Value_def)
        note ih = 1(1) [OF rec]
        show ?thesis
        proof (cases "pk = []")
          case e: True
          with n pk have "err' = None" "itValue it' = UndefTipSet" "store it' = store it"
            by (auto simp: Next_def Empty_def)
          with ih True None show ?thesis
            by (auto split: option.splits dest: traversalFails_Defined)
        next
          case ne: False
          show ?thesis
          proof (cases "GetTipSet (store it) pk")
            case (Inl e)
            with n pk ne have "err' = Some e" by (auto simp: Next_def Empty_def)
            with ih have "r = (itValue it, Some e)" by simp
            moreover have "traversalFails (store it) epoch (itValue it) e"
              using h gt pk ne Inl by (rule traversalFails.here)
            ultimately show ?thesis using None by simp
          next
            case (Inr p)
            with n pk ne have *: "err' = None" "itValue it' = p" "store it' = store it"
              by (auto simp: Next_def Empty_def)
            have "traversalFails (store it) epoch (itValue it) e"
              if "traversalFails (store it) epoch p e" for e
              using h gt pk ne Inr that by (rule traversalFails.later)
            with ih * True None show ?thesis by (auto split: option.splits)
          qed
        qed
      qed
    qed
  qed
qed

lemma find_error_iff:
  assumes "Defined start"
  shows "(\<exists>T. findTipsetAtEpoch s start epoch = Some (T, Some e))
         = traversalFails (reader s) epoch start e"
proof
  assume "\<exists>T. findTipsetAtEpoch s start epoch = Some (T, Some e)"
  then obtain T where "findTipsetAtEpoch s start epoch = Some (T, Some e)" ..
  then show "traversalFails (reader s) epoch start e"
    using loop_returns [of epoch "IterAncestors (reader s) start" UndefTipSet None "(T, Some e)"] assms
    by (simp add: findTipsetAtEpoch_def IterAncestors_def loopPost_def)
next
  assume "traversalFails (reader s) epoch start e"
  then show "\<exists>T. findTipsetAtEpoch s start epoch = Some (T, Some e)"
    by (simp add: findTipsetAtEpoch_def IterAncestors_def loop_fails)
qed

lemma find_ok_Defined:
  assumes "Defined start" "findTipsetAtEpoch s start epoch = Some (T, None)"
  shows "Defined T"
  using loop_returns [of epoch "IterAncestors (reader s) start" UndefTipSet None "(T, None)"] assms
  by (simp add: findTipsetAtEpoch_def IterAncestors_def loopPost_def)

lemma Sample_error_iff:
  assumes "GetTipSet (reader s) hk \<noteq> Inr UndefTipSet"
  shows "(Sample Sum256 s hk epoch = Some (Inl e)) = readFailure (reader s) hk epoch e"
proof (cases "Empty hk")
  case True
  then show ?thesis by (simp add: Sample_def readFailure_def)
next
  case ne: False
  show ?thesis
  proof (cases "GetTipSet (reader s) hk")
    case (Inl e')
    with ne show ?thesis by (auto simp: Sample_def readFailure_def)
  next
    case (Inr start)
    with assms have d: "Defined start" by (cases start) simp_all
    show ?thesis
    proof (cases "findTipsetAtEpoch s start epoch")
      case None
      with find_error_iff [OF d, of s epoch e] ne Inr show ?thesis
        by (simp add: Sample_def readFailure_def)
    next
      case (Some r)
      obtain T eo where r: "r = (T, eo)" by (cases r)
      show ?thesis
      proof (cases eo)
        case None
        with Some r d have "Defined T" using find_ok_Defined by blast
        then obtain tk where "MinTicket T = Inr tk" using Defined_MinTicket by blast
        with find_error_iff [OF d, of s epoch e] ne Inr Some r None show ?thesis
          by (simp add: Sample_def readFailure_def)
      next
        case (Some e0)
        with find_error_iff [OF d, of s epoch e] ne Inr \<open>findTipsetAtEpoch s start epoch = Some r\<close> r
        show ?thesis
          by (auto simp: Sample_def readFailure_def)
      qed
    qed
  qed
qed


lemma above_heightRank: "above t p \<Longrightarrow> heightRank p < heightRank t"
proof -
  assume "above t p"
  then obtain h hp where h: "Height t = Inr h" "Height p = Inr hp" "hp <s h"
    by (auto simp: above_def split: sum.splits)
  have "- (2 ^ 63) \<le> sint hp" using sint_ge [of hp] by simp
  with h show ?thesis by (simp add: heightRank_def word_sless_alt)
qed

lemma loop_total:
  assumes "descending rd"
  shows "\<exists>k. GetTipSet rd k = Inr t \<Longrightarrow>
    \<exists>r. findTipsetAtEpoch_loop epoch \<lparr>store = rd, itValue = t\<rparr> prev None = Some r"
proof (induction "heightRank t" arbitrary: t prev rule: less_induct)
  case less
  show ?case
  proof (cases "Defined t")
    case False
    then show ?thesis by (simp add: loop_Complete)
  next
    case True
    then obtain h where h: "Height t = Inr h" using Defined_Height by blast
    from True obtain pk where pk: "Parents t = Inr pk" by (cases t) simp_all
    show ?thesis
    proof (cases "h <=s epoch")
      case True
      with h show ?thesis by (simp add: loop_found)
    next
      case gt: False
      show ?thesis
      proof (cases "pk = []")
        case True
        with h gt pk show ?thesis by (simp add: loop_step Next_def Empty_def loop_Complete)
      next
        case ne: False
        show ?thesis
        proof (cases "GetTipSet rd pk")
          case (Inl e)
          with h gt pk ne show ?thesis by (simp add: loop_step Next_def Empty_def loop_Complete)
        next
          case (Inr p)
          with less.prems pk ne assms have "above t p" unfolding descending_def by blast
          then have "heightRank p < heightRank t" by (rule above_heightRank)
          moreover have "\<exists>k. GetTipSet rd k = Inr p" using Inr by blast
          ultimately have "\<exists>r. findTipsetAtEpoch_loop epoch \<lparr>store = rd, itValue = p\<rparr> t None = Some r"
            by (rule less.hyps)
          with h gt pk ne Inr show ?thesis by (simp add: loop_step Next_def Empty_def)
        qed
      qed
    qed
  qed
qed

lemma Sample_total:
  assumes "descending (reader s)"
  shows "\<exists>r. Sample Sum256 s hk epoch = Some r"
proof (cases "Empty hk")
  case True
  then show ?thesis by (simp add: Sample_def)
next
  case ne: False
  show ?thesis
  proof (cases "GetTipSet (reader s) hk")
    case (Inl e)
    with ne show ?thesis by (simp add: Sample_def)
  next
    case (Inr start)
    then have "\<exists>k. GetTipSet (reader s) k = Inr start" by blast
    with assms obtain r where "findTipsetAtEpoch s start epoch = Some r"
      unfolding findTipsetAtEpoch_def IterAncestors_def using loop_total by blast
    with ne Inr show ?thesis
      by (cases r) (simp add: Sample_def split: option.splits sum.splits)
  qed
qed


lemma ex_descending: "descending exStore"
  by (auto simp: descending_def ex_defs above_def word_sless_alt split: if_splits)

lemma ex_traversalFails: "traversalFails exStore 3 ts9 (Error ''tipset not found'')"
  by (rule traversalFails.here [where h = 9 and pk = "[108]"])
     (simp_all add: ex_defs word_sle_eq)

lemma ex_no_failure: "\<not> readFailure exStore [105] 4 e"
proof -
  have a: "\<not> traversalFails exStore 4 ts2 e"
    by (auto elim: traversalFails.cases simp: ex_defs word_sle_eq)
  have "\<not> traversalFails exStore 4 ts5 e"
  proof
    assume "traversalFails exStore 4 ts5 e"
    then show False
    proof (cases rule: traversalFails.cases)
      case (here h pk)
      then show False by (auto simp: ex_defs)
    next
      case (later h pk p)
      then have "p = ts2" by (auto simp: ex_defs)
      with later a show False by simp
    qed
  qed
  then show ?thesis by (simp add: readFailure_def exStore_def)
qed

section \<open>Lemmas: the mining worker\<close>

lemma orSend_simps:
  "orSend (Inr v) outCh k = k v"
  "orSend (Inl err) outCh k = Inl (False, outCh @ [\<lparr>NewBlock = None, Err = Some err\<rparr>])"
  by (simp_all add: orSend_def)






lemma winLoop_challengeTickets:
  "winLoop w sn np ss h winners cs =
     winners @ map fst (filter (\<lambda>(c, ch). CandidateWins (election w) ch sn 0 (Uint64 np) ss)
                          (zip cs (challengeTickets w h cs)))"
  by (induction cs arbitrary: h winners) (simp_all add: Let_def split: prod.splits)

lemma challengeTickets_digest:
  assumes "\<forall>h pt. fst (Hash (hasher w) (Bytes (hasher w) h pt)) = digest pt"
  shows "challengeTickets w h cs = map (\<lambda>c. digest (PartialTicket c)) cs"
proof (induction cs arbitrary: h)
  case Nil
  show ?case by simp
next
  case (Cons c cs)
  have "fst (Hash (hasher w) (Bytes (hasher w) h (PartialTicket c))) = digest (PartialTicket c)"
    using assms by blast
  with Cons show ?case by (auto simp: Let_def split: prod.splits)
qed



lemma Mine_finish_none:
  "Mine_finish w ctx base n outCh ev [] = (False, outCh)"
  by (simp add: Mine_finish_def)


lemma Mine_finish_block:
  "ws \<noteq> [] \<Longrightarrow> \<not> doneAtPoSt ctx
   \<Longrightarrow> GeneratePoSt (election w) (sortedSectorInfos ev) (postRandomness ev) ws (poster w) = Inr post
   \<Longrightarrow> Generate w base (nextTicket ev) n (NewEPoStInfo post (postRandomness ev) ws) = (next, err)
   \<Longrightarrow> Mine_finish w ctx base n outCh ev ws = (True, outCh @ [NewOutput next err])"
  by (simp add: Mine_finish_def raceSelect_def)

lemma Mine_finish_cancelled:
  "ws \<noteq> [] \<Longrightarrow> doneAtPoSt ctx
   \<Longrightarrow> Generate w base (nextTicket ev) n (NewEPoStInfo [] (postRandomness ev) ws) = (next, err)
   \<Longrightarrow> Mine_finish w ctx base n outCh ev ws = (True, outCh @ [NewOutput next err])"
  by (simp add: Mine_finish_def raceSelect_def)

lemma ex_reads:
  "Mine_reads exWorker ctxLive ts5 0 [] = Inr (exEvaluation 0)"
  "Mine_reads exWorker ctxLive ts5 1 [] = Inr (exEvaluation 1)"
  "Mine_reads exWorker ctxCancelledAtPoSt ts5 0 [] = Inr (exEvaluation 0)"
  "Mine_reads exWorkerNoBlock ctxLive ts5 0 [] = Inr (exEvaluation 0)"
  by (simp_all add: Mine_reads_def orSend_simps getPowerTable_def raceSelect_def exWorker_defs
      ts5_def)

lemma ex_winners:
  "Mine_winners exWorker (exEvaluation 0) = [exCandidate 4]"
  "Mine_winners exWorker (exEvaluation 1) = []"
  "Mine_winners exWorkerNoBlock (exEvaluation 0) = [exCandidate 4]"
  by (simp_all add: Mine_winners_def exWorker_defs)

lemma Mine_reads_candidates:
  "Mine_reads w ctx base n outCh = Inr ev \<Longrightarrow> \<not> doneAtCandidates ctx \<Longrightarrow>
   GenerateCandidates (election w) (postRandomness ev) (sortedSectorInfos ev) (poster w)
     = Inr (candidates ev)"
  by (auto simp: Mine_reads_def orSend_def raceSelect_def Let_def
      split: if_splits sum.splits prod.splits selected.splits)

lemma Mine_winners_none_iff:
  "(Mine_winners w ev = []) =
   (\<forall>(c, ch) \<in> set (zip (candidates ev)
                        (challengeTickets w (NewHasher (hasher w)) (candidates ev))).
      \<not> CandidateWins (election w) ch (sectorNum ev) 0 (Uint64 (networkPower ev)) (sectorSize ev))"
  by (auto simp: Mine_winners_def winLoop_challengeTickets filter_empty_conv)




section \<open>Properties of the sampler\<close>

text \<open>
  C1. For a non-empty head key that resolves, whose ancestors all resolve down to
  genesis with heights falling strictly on the way back, and for every epoch, Sample
  returns Sum256 (Sum256 (T.MinTicket.VRFProof) || the epoch as eight big-endian bytes),
  where T is the highest tipset among head and its ancestors whose height is at most the
  epoch, or the genesis tipset (the last of the walk) when there is none.
\<close>

theorem Sample_highest_at_or_below:
  assumes "\<not> Empty hk" and "GetTipSet (reader s) hk = Inr start"
    and "ancestry (reader s) start xs" and "sorted_wrt above xs"
  shows "\<exists>T tk. T \<in> set xs \<and> MinTicket T = Inr tk
      \<and> Sample Sum256 s hk epoch = Some (Inr (Sum256 (Sum256 (VRFProof tk) @ BigEndian epoch)))
      \<and> (if \<exists>t\<in>set xs. atOrBelow epoch t
         then atOrBelow epoch T \<and> (\<forall>t\<in>set xs. atOrBelow epoch t \<longrightarrow> t = T \<or> above T t)
         else T = last xs)"
proof -
  let ?T = "pick epoch xs"
  have ne: "xs \<noteq> []" using assms(3) by (rule ancestry_nonempty)
  have p: "?T \<in> set xs \<and>
    (if \<exists>t\<in>set xs. atOrBelow epoch t
     then atOrBelow epoch ?T \<and> (\<forall>t\<in>set xs. atOrBelow epoch t \<longrightarrow> t = ?T \<or> above ?T t)
     else ?T = last xs)"
    using assms(4) ne by (rule pick_highest)
  then have "Defined ?T" using assms(3) ancestry_Defined by blast
  then obtain tk where tk: "MinTicket ?T = Inr tk" using Defined_MinTicket by blast
  have f: "findTipsetAtEpoch s start epoch = Some (?T, None)"
    using assms(3) by (simp add: findTipsetAtEpoch_def IterAncestors_def loop_ancestry)
  have "Sample Sum256 s hk epoch = Some (Inr (Sum256 (Sum256 (VRFProof tk) @ BigEndian epoch)))"
    using assms(1,2) f tk by (simp add: Sample_def seedBuf_def)
  with p tk show ?thesis by blast
qed

theorem Sample_highest_at_or_below_witness:
  "\<exists>T tk. T \<in> set [ts5, ts2, ts1, ts0] \<and> MinTicket T = Inr tk
      \<and> Sample rev (NewSampler exStore) [105] 4 = Some (Inr (rev (rev (VRFProof tk) @ BigEndian 4)))
      \<and> (if \<exists>t\<in>set [ts5, ts2, ts1, ts0]. atOrBelow 4 t
         then atOrBelow 4 T \<and> (\<forall>t\<in>set [ts5, ts2, ts1, ts0]. atOrBelow 4 t \<longrightarrow> t = T \<or> above T t)
         else T = last [ts5, ts2, ts1, ts0])"
proof -
  have 1: "\<not> Empty [105::nat]" by (simp add: Empty_def)
  have 2: "GetTipSet (reader (NewSampler exStore)) [105] = Inr ts5"
    by (simp add: NewSampler_def exStore_def)
  have 3: "ancestry (reader (NewSampler exStore)) ts5 [ts5, ts2, ts1, ts0]"
    by (simp add: NewSampler_def ex_ancestry)
  show ?thesis by (rule Sample_highest_at_or_below [OF 1 2 3 ex_sorted])
qed



text \<open>
  C6. With the empty head key, for every epoch and whatever the store holds, Sample
  hashes the empty VRF proof together with the requested epoch. With a non-empty head
  that resolves, on a chain that resolves down to a genesis tipset of height at least 0
  with heights falling strictly on the way back, every epoch at or below 0 is sampled
  from the genesis tipset's ticket, with the requested epoch mixed in.
\<close>

theorem Sample_genesis_cases:
  "Sample Sum256 s [] epoch = Some (Inr (Sum256 (Sum256 [] @ BigEndian epoch)))
   \<and> Sample Sum256 s [] epoch = Sample Sum256 s' [] epoch
   \<and> (\<not> Empty hk \<and> GetTipSet (reader s) hk = Inr start \<and> ancestry (reader s) start xs
        \<and> sorted_wrt above xs \<and> Height (last xs) = Inr g \<and> 0 <=s g \<and> epoch <=s 0
      \<longrightarrow> (\<exists>tk. MinTicket (last xs) = Inr tk
            \<and> Sample Sum256 s hk epoch
                = Some (Inr (Sum256 (Sum256 (VRFProof tk) @ BigEndian epoch)))))"
proof -
  have a: "Sample Sum256 r [] epoch = Some (Inr (Sum256 (Sum256 [] @ BigEndian epoch)))" for r
    by (simp add: Sample_def Empty_def seedBuf_def)
  have b: "\<exists>tk. MinTicket (last xs) = Inr tk
            \<and> Sample Sum256 s hk epoch
                = Some (Inr (Sum256 (Sum256 (VRFProof tk) @ BigEndian epoch)))"
    if h: "\<not> Empty hk" "GetTipSet (reader s) hk = Inr start" "ancestry (reader s) start xs"
      "sorted_wrt above xs" "Height (last xs) = Inr g" "0 <=s g" "epoch <=s 0"
  proof -
    have ne: "xs \<noteq> []" using h(3) by (rule ancestry_nonempty)
    have p: "pick epoch xs = last xs" using h(4) ne h(5,6,7) by (rule pick_genesis)
    from h(5) obtain tk where tk: "MinTicket (last xs) = Inr tk" by (cases "last xs") simp_all
    have f: "findTipsetAtEpoch s start epoch = Some (last xs, None)"
      using h(3) p by (simp add: findTipsetAtEpoch_def IterAncestors_def loop_ancestry)
    have "Sample Sum256 s hk epoch = Some (Inr (Sum256 (seedBuf Sum256 tk epoch)))"
      using h(1,2) f tk by (rule Sample_resolved)
    with tk show ?thesis by (simp add: seedBuf_def)
  qed
  from b show ?thesis by (simp add: a)
qed

theorem Sample_genesis_cases_witness:
  "Sample rev (NewSampler exStore) [] (- 1) = Some (Inr (rev (rev [] @ BigEndian (- 1))))
   \<and> (\<exists>tk. MinTicket (last [ts5, ts2, ts1, ts0]) = Inr tk
        \<and> Sample rev (NewSampler exStore) [105] (- 1)
            = Some (Inr (rev (rev (VRFProof tk) @ BigEndian (- 1)))))
   \<and> (\<exists>tk. MinTicket (last [ts5, ts2, ts1, ts0]) = Inr tk
        \<and> Sample rev (NewSampler exStore) [105] 0
            = Some (Inr (rev (rev (VRFProof tk) @ BigEndian 0))))"
proof -
  have 1: "\<not> Empty [105::nat]" by (simp add: Empty_def)
  have 2: "GetTipSet (reader (NewSampler exStore)) [105] = Inr ts5"
    by (simp add: NewSampler_def exStore_def)
  have 3: "ancestry (reader (NewSampler exStore)) ts5 [ts5, ts2, ts1, ts0]"
    by (simp add: NewSampler_def ex_ancestry)
  have 4: "Height (last [ts5, ts2, ts1, ts0]) = Inr 0" by (simp add: ts0_def)
  have 5: "(0 :: ChainEpoch) <=s 0" "(- 1 :: ChainEpoch) <=s 0" by (simp_all add: word_sle_eq)
  show ?thesis
    using Sample_genesis_cases [of rev "NewSampler exStore" "- 1" "NewSampler exStore" "[105]" ts5
        "[ts5, ts2, ts1, ts0]" 0]
      Sample_genesis_cases [of rev "NewSampler exStore" 0 "NewSampler exStore" "[105]" ts5
        "[ts5, ts2, ts1, ts0]" 0]
      1 2 3 4 5 ex_sorted
    by simp
qed

text \<open>
  C7. Provided the store does not answer the head key with an undefined tipset: Sample
  returns the error \<open>e\<close> exactly when there is a chain-read failure with \<open>e\<close>, at the
  resolution of the head or on the ancestor walk; with the empty head key it always
  returns a seed; on a store whose heights fall strictly along parent links it always
  returns, and returns a seed when there is no chain-read failure.
\<close>

theorem Sample_error_iff_read_failure:
  assumes "Empty hk \<or> GetTipSet (reader s) hk \<noteq> Inr UndefTipSet"
  shows "(Sample Sum256 s hk epoch = Some (Inl e)) = readFailure (reader s) hk epoch e
    \<and> (Empty hk \<longrightarrow> (\<exists>seed. Sample Sum256 s hk epoch = Some (Inr seed)))
    \<and> (descending (reader s) \<longrightarrow> (\<exists>r. Sample Sum256 s hk epoch = Some r))
    \<and> (descending (reader s) \<and> (\<forall>e'. \<not> readFailure (reader s) hk epoch e')
         \<longrightarrow> (\<exists>seed. Sample Sum256 s hk epoch = Some (Inr seed)))"
proof -
  have iff: "(Sample Sum256 s hk epoch = Some (Inl e')) = readFailure (reader s) hk epoch e'" for e'
  proof (cases "Empty hk")
    case True
    then show ?thesis by (simp add: Sample_def readFailure_def)
  next
    case False
    with assms show ?thesis by (simp add: Sample_error_iff)
  qed
  have emp: "\<exists>seed. Sample Sum256 s hk epoch = Some (Inr seed)" if "Empty hk"
    using that by (simp add: Sample_def)
  have tot: "\<exists>r. Sample Sum256 s hk epoch = Some r" if "descending (reader s)"
    using that by (rule Sample_total)
  have ok: "\<exists>seed. Sample Sum256 s hk epoch = Some (Inr seed)"
    if d: "descending (reader s)" and n: "\<forall>e'. \<not> readFailure (reader s) hk epoch e'"
  proof -
    from tot [OF d] obtain r where r: "Sample Sum256 s hk epoch = Some r" ..
    show ?thesis
    proof (cases r)
      case (Inl e')
      with r iff [of e'] n show ?thesis by simp
    next
      case (Inr seed)
      with r show ?thesis by simp
    qed
  qed
  from iff [of e] emp tot ok show ?thesis by blast
qed

theorem Sample_error_iff_read_failure_witness:
  "Sample rev (NewSampler exStore) [109] 3 = Some (Inl (Error ''tipset not found''))
   \<and> Sample rev (NewSampler exStore) [77] 3 = Some (Inl (Error ''tipset not found''))
   \<and> (\<exists>seed. Sample rev (NewSampler exStore) [] 3 = Some (Inr seed))
   \<and> (\<exists>seed. Sample rev (NewSampler exStore) [105] 4 = Some (Inr seed))"
proof -
  have r: "reader (NewSampler exStore) = exStore" by (simp add: NewSampler_def)
  have 1: "readFailure exStore [109] 3 (Error ''tipset not found'')"
    using ex_traversalFails by (simp add: readFailure_def Empty_def exStore_def)
  have 2: "readFailure exStore [77] 3 (Error ''tipset not found'')"
    by (simp add: readFailure_def Empty_def exStore_def)
  have 3: "Empty []" by (simp add: Empty_def)
  have h: "GetTipSet exStore [109] \<noteq> Inr UndefTipSet" "GetTipSet exStore [77] \<noteq> Inr UndefTipSet"
    "GetTipSet exStore [105] \<noteq> Inr UndefTipSet"
    by (simp_all add: ex_defs)
  show ?thesis
    using Sample_error_iff_read_failure [of "[109]" "NewSampler exStore" rev 3 "Error ''tipset not found''"]
      Sample_error_iff_read_failure [of "[77]" "NewSampler exStore" rev 3 "Error ''tipset not found''"]
      Sample_error_iff_read_failure [of "[]" "NewSampler exStore" rev 3 "Error ''tipset not found''"]
      Sample_error_iff_read_failure [of "[105]" "NewSampler exStore" rev 4 "Error ''tipset not found''"]
      1 2 3 h ex_descending ex_no_failure
    by (simp add: r)
qed

section \<open>Properties of the mining worker\<close>



text \<open>
  C4. When Mine has got as far as the win evaluation (every read and the candidate race
  have succeeded) and no candidate passes the win test, Mine returns false and leaves the
  output channel as it was: it sends neither a block nor an error. The candidates it
  evaluated are those that candidate generation returned, unless the race took the
  cancellation, which leaves none.
\<close>

theorem Mine_no_winner_silent:
  assumes "Mine_reads w ctx base n outCh = Inr ev"
    and "\<forall>(c, ch) \<in> set (zip (candidates ev)
                            (challengeTickets w (NewHasher (hasher w)) (candidates ev))).
           \<not> CandidateWins (election w) ch (sectorNum ev) 0 (Uint64 (networkPower ev))
                (sectorSize ev)"
  shows "Mine w ctx base n outCh = (False, outCh)
    \<and> (if doneAtCandidates ctx then candidates ev = []
        else GenerateCandidates (election w) (postRandomness ev) (sortedSectorInfos ev) (poster w)
               = Inr (candidates ev))"
proof -
  from assms(2) have "Mine_winners w ev = []" by (simp add: Mine_winners_none_iff)
  with assms(1) have 1: "Mine w ctx base n outCh = (False, outCh)"
    by (simp add: Mine_def Mine_finish_none)
  have 2: "candidates ev = []" if "doneAtCandidates ctx"
    using assms(1) that
    by (auto simp: Mine_reads_def orSend_def raceSelect_def Let_def
        split: if_splits sum.splits prod.splits)
  have 3: "GenerateCandidates (election w) (postRandomness ev) (sortedSectorInfos ev) (poster w)
               = Inr (candidates ev)" if "\<not> doneAtCandidates ctx"
    using assms(1) that by (rule Mine_reads_candidates)
  from 1 2 3 show ?thesis by simp
qed

theorem Mine_no_winner_silent_witness:
  "Mine exWorker ctxLive ts5 1 [] = (False, [])
   \<and> GenerateCandidates (election exWorker) [53, 1] [1, 2] 1 = Inr [exCandidate 3]"
proof -
  have 2: "\<forall>(c, ch) \<in> set (zip (candidates (exEvaluation 1))
                (challengeTickets exWorker (NewHasher (hasher exWorker))
                   (candidates (exEvaluation 1)))).
           \<not> CandidateWins (election exWorker) ch (sectorNum (exEvaluation 1)) 0
                (Uint64 (networkPower (exEvaluation 1))) (sectorSize (exEvaluation 1))"
    by (simp add: exWorker_defs)
  show ?thesis
    using Mine_no_winner_silent [OF ex_reads(2) 2]
    by (simp add: exWorker_defs)
qed

text \<open>
  C9. When Mine has got as far as the win evaluation, at least one candidate wins, and the
  final-proof race is not resolved by an error (it delivers the proof, or it takes the
  cancellation and the proof stays empty), Mine returns true and sends exactly one Output,
  holding the block pointer and the error that Generate returned: so also when Generate
  fails with a nil block, where the Output carries that error and no block.
\<close>

theorem Mine_won_reports_election:
  assumes "Mine_reads w ctx base n outCh = Inr ev"
    and "Mine_winners w ev \<noteq> []"
    and "doneAtPoSt ctx \<and> post = [] \<or>
         \<not> doneAtPoSt ctx \<and>
           GeneratePoSt (election w) (sortedSectorInfos ev) (postRandomness ev)
             (Mine_winners w ev) (poster w) = Inr post"
    and "Generate w base (nextTicket ev) n
           (NewEPoStInfo post (postRandomness ev) (Mine_winners w ev)) = (next, err)"
  shows "Mine w ctx base n outCh = (True, outCh @ [\<lparr>NewBlock = next, Err = err\<rparr>])"
  using assms
  by (auto simp: Mine_def Mine_finish_block Mine_finish_cancelled NewOutput_def)

theorem Mine_won_reports_election_witness:
  "Mine exWorkerNoBlock ctxLive ts5 0 []
     = (True, [\<lparr>NewBlock = None, Err = Some (Error ''generate failed'')\<rparr>])
   \<and> Mine exWorker ctxLive ts5 0 []
     = (True, [\<lparr>NewBlock = Some (Block 7 \<lparr>VRFProof = [53, 1]\<rparr> 0 [105]
                  (NewEPoStInfo [42] [53, 0] [exCandidate 4])), Err = None\<rparr>])"
proof -
  have a: "Mine_winners exWorkerNoBlock (exEvaluation 0) \<noteq> []"
    "Mine_winners exWorker (exEvaluation 0) \<noteq> []"
    by (simp_all add: ex_winners)
  have b: "doneAtPoSt ctxLive \<and> [42] = [] \<or>
         \<not> doneAtPoSt ctxLive \<and>
           GeneratePoSt (election exWorkerNoBlock) (sortedSectorInfos (exEvaluation 0))
             (postRandomness (exEvaluation 0)) (Mine_winners exWorkerNoBlock (exEvaluation 0))
             (poster exWorkerNoBlock) = Inr [42]"
    by (simp add: exWorker_defs)
  have c: "Generate exWorkerNoBlock ts5 (nextTicket (exEvaluation 0)) 0
           (NewEPoStInfo [42] (postRandomness (exEvaluation 0))
              (Mine_winners exWorkerNoBlock (exEvaluation 0)))
           = (None, Some (Error ''generate failed''))"
    by (simp add: exWorker_defs)
  have b': "doneAtPoSt ctxLive \<and> [42] = [] \<or>
         \<not> doneAtPoSt ctxLive \<and>
           GeneratePoSt (election exWorker) (sortedSectorInfos (exEvaluation 0))
             (postRandomness (exEvaluation 0)) (Mine_winners exWorker (exEvaluation 0))
             (poster exWorker) = Inr [42]"
    by (simp add: exWorker_defs)
  have c': "Generate exWorker ts5 (nextTicket (exEvaluation 0)) 0
           (NewEPoStInfo [42] (postRandomness (exEvaluation 0))
              (Mine_winners exWorker (exEvaluation 0)))
           = (Some (Block 7 \<lparr>VRFProof = [53, 1]\<rparr> 0 [105]
                  (NewEPoStInfo [42] [53, 0] [exCandidate 4])), None)"
    by (simp add: ex_winners) (simp add: exWorker_defs ts5_def)
  show ?thesis
    using Mine_won_reports_election [OF ex_reads(4) a(1) b c]
      Mine_won_reports_election [OF ex_reads(1) a(2) b' c']
    by simp
qed




text \<open>
  C2. The claim holds of the cancellation seen at entry, and not of the two races: the
  case \<^verbatim>\<open><-ctx.Done()\<close> of either \<^verbatim>\<open>select\<close> logs and does not return. The miner of the
  example, cancelled while the final proof is generated after the candidate 4 has won,
  goes on with an empty proof, and Mine sends the Output of Generate and returns true.
  Cancelled while the candidates are generated, Mine goes on to read the power table, and
  sends an error Output when that read fails.
\<close>

theorem Mine_cancelled_in_race_sends_output:
  "Mine exWorker \<lparr>errAtEntry = False, doneAtCandidates = False, doneAtPoSt = True\<rparr> ts5 0 []
     = (True, [\<lparr>NewBlock = Some (Block 7 \<lparr>VRFProof = [53, 1]\<rparr> 0 [105]
                  (NewEPoStInfo [] [53, 0] [exCandidate 4])), Err = None\<rparr>])
   \<and> Mine exWorkerNoSectors \<lparr>errAtEntry = False, doneAtCandidates = True, doneAtPoSt = False\<rparr>
       ts5 0 []
     = (False, [\<lparr>NewBlock = None, Err = Some (Error ''context canceled'')\<rparr>])"
proof -
  have "Mine exWorker ctxCancelledAtPoSt ts5 0 []
     = Mine_finish exWorker ctxCancelledAtPoSt ts5 0 [] (exEvaluation 0) [exCandidate 4]"
    using ex_reads(3) ex_winners(1) by (simp add: Mine_def)
  then have 1: "Mine exWorker ctxCancelledAtPoSt ts5 0 []
     = (True, [\<lparr>NewBlock = Some (Block 7 \<lparr>VRFProof = [53, 1]\<rparr> 0 [105]
                  (NewEPoStInfo [] [53, 0] [exCandidate 4])), Err = None\<rparr>])"
    by (simp add: Mine_finish_def raceSelect_def NewOutput_def exWorker_defs ts5_def)
  have "Mine_reads exWorkerNoSectors ctxCancelledAtCandidates ts5 0 []
     = Inl (False, [\<lparr>NewBlock = None, Err = Some (Error ''context canceled'')\<rparr>])"
    by (simp add: Mine_reads_def orSend_simps getPowerTable_def raceSelect_def exWorker_defs
        ts5_def)
  then have 2: "Mine exWorkerNoSectors ctxCancelledAtCandidates ts5 0 []
     = (False, [\<lparr>NewBlock = None, Err = Some (Error ''context canceled'')\<rparr>])"
    by (simp add: Mine_def)
  from 1 2 show ?thesis by (simp add: ctxCancelledAtPoSt_def ctxCancelledAtCandidates_def)
qed

section \<open>Properties of the gas tracker\<close>

text \<open>
  C10 says that a failed charge always changes the tracker. It does not on an exhausted
  one. The tracker after \<^verbatim>\<open>NewGasTracker(10)\<close> and a failed \<^verbatim>\<open>TryCharge(11)\<close> is exhausted: its
  consumption stands at the limit. A further \<^verbatim>\<open>TryCharge(1)\<close> fails too
  (\<^verbatim>\<open>aux = 11 > 10\<close>) and assigns the limit to a consumption that already equals it, so
  this failed charge leaves the tracker exactly as it was.
\<close>

theorem TryCharge_exhausted_unchanged:
  "fst (TryCharge (snd (TryCharge (NewGasTracker 10) 11)) 1) = False
   \<and> snd (TryCharge (snd (TryCharge (NewGasTracker 10) 11)) 1)
       = snd (TryCharge (NewGasTracker 10) 11)"
  by (simp add: TryCharge_def NewGasTracker_def)

text \<open>
  C10, as the code has it. For every tracker state and every amount: when
  gasConsumed + amount <= gasLimit, TryCharge returns true, adds exactly the amount to
  gasConsumed and leaves the limit alone; otherwise it returns false and sets gasConsumed
  to gasLimit, leaving the limit alone, so RemainingGas is zero afterwards. A failed
  charge changes the tracker exactly when the tracker was not already exhausted
  (gasConsumed differs from gasLimit); on an exhausted tracker it changes nothing.
\<close>

theorem TryCharge_spec:
  "(gasConsumed t + amount \<le> gasLimit t \<longrightarrow>
      fst (TryCharge t amount) = True
      \<and> gasConsumed (snd (TryCharge t amount)) = gasConsumed t + amount
      \<and> gasLimit (snd (TryCharge t amount)) = gasLimit t)
   \<and> (\<not> gasConsumed t + amount \<le> gasLimit t \<longrightarrow>
      fst (TryCharge t amount) = False
      \<and> gasConsumed (snd (TryCharge t amount)) = gasLimit t
      \<and> gasLimit (snd (TryCharge t amount)) = gasLimit t
      \<and> RemainingGas (snd (TryCharge t amount)) = 0
      \<and> (snd (TryCharge t amount) = t) = (gasConsumed t = gasLimit t))"
  by (auto simp: TryCharge_def RemainingGas_def Let_def
        dest: arg_cong [where f = gasConsumed])

theorem TryCharge_spec_witness:
  "fst (TryCharge (NewGasTracker 10) 4) = True
   \<and> gasConsumed (snd (TryCharge (NewGasTracker 10) 4)) = 4
   \<and> gasLimit (snd (TryCharge (NewGasTracker 10) 4)) = 10
   \<and> fst (TryCharge (NewGasTracker 10) 11) = False
   \<and> gasConsumed (snd (TryCharge (NewGasTracker 10) 11)) = 10
   \<and> RemainingGas (snd (TryCharge (NewGasTracker 10) 11)) = 0
   \<and> snd (TryCharge (NewGasTracker 10) 11) \<noteq> NewGasTracker 10
   \<and> fst (TryCharge \<lparr>gasLimit = 10, gasConsumed = 10\<rparr> 1) = False
   \<and> snd (TryCharge \<lparr>gasLimit = 10, gasConsumed = 10\<rparr> 1) = \<lparr>gasLimit = 10, gasConsumed = 10\<rparr>"
  using TryCharge_spec [of "NewGasTracker 10" 4] TryCharge_spec [of "NewGasTracker 10" 11]
    TryCharge_spec [of "\<lparr>gasLimit = 10, gasConsumed = 10\<rparr>" 1]
  by (simp add: NewGasTracker_def)

end
